theory Spec2Isabelle
  imports Main "HOL-Library.Monad_Syntax" "HOL-Library.AList"
begin

section \<open>The defensive agent of the mutation simulator\<close>

text \<open>
  This theory embeds \<^verbatim>\<open>examples/agents/python_agent.py\<close>: the memory store
  (\<^verbatim>\<open>load_memory\<close>, \<^verbatim>\<open>save_memory\<close>), the decision function
  \<^verbatim>\<open>choose_action\<close> and the read-decide-persist-emit loop \<^verbatim>\<open>main\<close>.

  The agent works on values decoded from JSON, so the model is dynamically typed as the
  Python is: every value is a \<open>json\<close>, and an operation applied to a value of the wrong
  shape raises. A raised exception is the result \<open>None\<close>; the model does not record the
  class or the text of the exception, since \<^verbatim>\<open>main\<close> catches every
  \<^verbatim>\<open>Exception\<close> alike. Numbers are Python integers (unbounded); JSON numbers with a
  fraction or an exponent are outside the model. A Python \<^verbatim>\<open>dict\<close> keeps insertion order,
  which decides ties in \<^verbatim>\<open>min\<close>, so an object is an association list.
\<close>

subsection \<open>JSON values and the Python operations used on them\<close>

datatype json =
    JNull
  | JBool bool
  | JInt int
  | JStr string
  | JList "json list"
  | JObj "(string \<times> json) list"

text \<open>The integer a value denotes in arithmetic and comparisons; \<^verbatim>\<open>bool\<close> is a subclass
  of \<^verbatim>\<open>int\<close> in Python (\<^verbatim>\<open>True == 1\<close>).\<close>

fun num_of :: "json \<Rightarrow> int option" where
  "num_of (JInt n) = Some n"
| "num_of (JBool b) = Some (if b then 1 else 0)"
| "num_of _ = None"

text \<open>\<^verbatim>\<open>d[k]\<close> for a string key: KeyError on a missing key, TypeError on anything that is
  not a dict.\<close>

fun subscript :: "json \<Rightarrow> string \<Rightarrow> json option" where
  "subscript (JObj kvs) k = map_of kvs k"
| "subscript _ k = None"

text \<open>\<^verbatim>\<open>d.get(k, default)\<close>: AttributeError on anything that is not a dict.\<close>

fun dict_get :: "json \<Rightarrow> string \<Rightarrow> json \<Rightarrow> json option" where
  "dict_get (JObj kvs) k dflt = (case map_of kvs k of None \<Rightarrow> Some dflt | Some v \<Rightarrow> Some v)"
| "dict_get _ k dflt = None"

text \<open>\<^verbatim>\<open>d[k] = v\<close>: an existing key keeps its place, a new key goes last.\<close>

fun setitem :: "json \<Rightarrow> string \<Rightarrow> json \<Rightarrow> json option" where
  "setitem (JObj kvs) k v = Some (JObj (AList.update k v kvs))"
| "setitem _ k v = None"

text \<open>\<^verbatim>\<open>d.values()\<close> and \<^verbatim>\<open>d.items()\<close>, in insertion order.\<close>

fun dict_values :: "json \<Rightarrow> json list option" where
  "dict_values (JObj kvs) = Some (map snd kvs)"
| "dict_values _ = None"

fun dict_items :: "json \<Rightarrow> (string \<times> json) list option" where
  "dict_items (JObj kvs) = Some kvs"
| "dict_items _ = None"

text \<open>\<^verbatim>\<open>v + n\<close> and \<^verbatim>\<open>v - n\<close> for an integer literal \<open>n\<close>: TypeError unless \<open>v\<close> is a number.\<close>

definition py_add :: "json \<Rightarrow> int \<Rightarrow> json option" where
  "py_add v n = map_option (\<lambda>x. JInt (x + n)) (num_of v)"

definition py_sub :: "json \<Rightarrow> int \<Rightarrow> json option" where
  "py_sub v n = map_option (\<lambda>x. JInt (x - n)) (num_of v)"

text \<open>
  The order comparisons. They are defined on numbers. Python also orders two strings or
  two lists, which the model leaves undefined: \<^verbatim>\<open>choose_action\<close> compares every neighbour's
  energy with \<^verbatim>\<open>my_energy\<close> and \<^verbatim>\<open>my_energy\<close> with an integer literal, so a call in which
  some comparison is not between numbers raises in Python too.
\<close>

definition py_ge :: "json \<Rightarrow> json \<Rightarrow> bool option" where
  "py_ge a b = do { x \<leftarrow> num_of a; y \<leftarrow> num_of b; Some (x \<ge> y) }"

definition py_le :: "json \<Rightarrow> json \<Rightarrow> bool option" where
  "py_le a b = do { x \<leftarrow> num_of a; y \<leftarrow> num_of b; Some (x \<le> y) }"

definition py_gt :: "json \<Rightarrow> json \<Rightarrow> bool option" where
  "py_gt a b = do { x \<leftarrow> num_of a; y \<leftarrow> num_of b; Some (x > y) }"

definition py_lt :: "json \<Rightarrow> json \<Rightarrow> bool option" where
  "py_lt a b = do { x \<leftarrow> num_of a; y \<leftarrow> num_of b; Some (x < y) }"

text \<open>\<^verbatim>\<open>xs.append(v)\<close>: AttributeError unless \<open>xs\<close> is a list.\<close>

fun list_append :: "json \<Rightarrow> json \<Rightarrow> json option" where
  "list_append (JList xs) v = Some (JList (xs @ [v]))"
| "list_append _ v = None"

text \<open>\<^verbatim>\<open>xs[-20:]\<close>: the last 20 elements, or all of them when there are fewer.\<close>

definition last20 :: "'a list \<Rightarrow> 'a list" where
  "last20 xs = drop (length xs - 20) xs"

fun slice_last20 :: "json \<Rightarrow> json option" where
  "slice_last20 (JList xs) = Some (JList (last20 xs))"
| "slice_last20 (JStr s) = Some (JStr (last20 s))"
| "slice_last20 _ = None"

subsection \<open>The decision function\<close>

text \<open>The actions \<^verbatim>\<open>{'action': 'rest'}\<close>, \<^verbatim>\<open>{'action': 'replicate'}\<close>,
  \<^verbatim>\<open>{'action': 'attack', 'target': d}\<close>, and the fallback of \<^verbatim>\<open>main\<close>,
  \<^verbatim>\<open>{'action': 'rest', 'message': 'Error: ' + str(e)}\<close>.\<close>

datatype action = Rest | Replicate | Attack string | RestMessage

text \<open>\<^verbatim>\<open>memory[k] = memory.get(k, 0) + 1\<close>\<close>

definition increment :: "json \<Rightarrow> string \<Rightarrow> json option" where
  "increment memory k = do {
     old \<leftarrow> dict_get memory k (JInt 0);
     new \<leftarrow> py_add old 1;
     setitem memory k new
   }"

text \<open>\<^verbatim>\<open>sum(1 for info in neighbors.values() if info['energy'] >= my_energy)\<close>\<close>

fun count_threats :: "json list \<Rightarrow> json \<Rightarrow> nat option" where
  "count_threats [] my_energy = Some 0"
| "count_threats (info # infos) my_energy = do {
     e \<leftarrow> subscript info ''energy'';
     threat \<leftarrow> py_ge e my_energy;
     n \<leftarrow> count_threats infos my_energy;
     Some (if threat then n + 1 else n)
   }"

text \<open>\<^verbatim>\<open>{d: info for d, info in neighbors.items()
      if info['energy'] > 0 and info['energy'] >= my_energy - 2}\<close>;
  the second conjunct is evaluated only when the first holds.\<close>

fun threatening :: "(string \<times> json) list \<Rightarrow> json \<Rightarrow> (string \<times> json) list option" where
  "threatening [] my_energy = Some []"
| "threatening ((d, info) # items) my_energy = do {
     e \<leftarrow> subscript info ''energy'';
     alive \<leftarrow> py_gt e (JInt 0);
     keep \<leftarrow> (if alive then do { bound \<leftarrow> py_sub my_energy 2; py_ge e bound }
              else Some False);
     rest \<leftarrow> threatening items my_energy;
     Some (if keep then (d, info) # rest else rest)
   }"

text \<open>\<^verbatim>\<open>min(tn.keys(), key=lambda d: tn[d]['energy'])\<close>: \<^verbatim>\<open>min\<close> keeps the first element
  and replaces it only by one whose key is strictly smaller; on no element it raises.\<close>

fun min_scan :: "(string \<times> json) list \<Rightarrow> string \<Rightarrow> json \<Rightarrow> string list \<Rightarrow> string option" where
  "min_scan tn best best_val [] = Some best"
| "min_scan tn best best_val (d # ds) = do {
     info \<leftarrow> map_of tn d;
     val \<leftarrow> subscript info ''energy'';
     smaller \<leftarrow> py_lt val best_val;
     if smaller then min_scan tn d val ds else min_scan tn best best_val ds
   }"

definition min_energy_key :: "(string \<times> json) list \<Rightarrow> string option" where
  "min_energy_key tn =
     (case map fst tn of
        [] \<Rightarrow> None
      | d # ds \<Rightarrow> do {
          info \<leftarrow> map_of tn d;
          val \<leftarrow> subscript info ''energy'';
          min_scan tn d val ds
        })"

text \<open>The bookkeeping of lines 35 to 38; the list stored under
  \<^verbatim>\<open>positions_visited\<close> is appended to in place and then replaced by its last 20.\<close>

definition update_memory :: "json \<Rightarrow> json \<Rightarrow> json option" where
  "update_memory memory position = do {
     turns \<leftarrow> dict_get memory ''turns_played'' (JInt 0);
     turns' \<leftarrow> py_add turns 1;
     memory \<leftarrow> setitem memory ''turns_played'' turns';
     visited \<leftarrow> dict_get memory ''positions_visited'' (JList []);
     memory \<leftarrow> setitem memory ''positions_visited'' visited;
     visited \<leftarrow> subscript memory ''positions_visited'';
     visited \<leftarrow> list_append visited position;
     memory \<leftarrow> setitem memory ''positions_visited'' visited;
     visited \<leftarrow> subscript memory ''positions_visited'';
     recent \<leftarrow> slice_last20 visited;
     setitem memory ''positions_visited'' recent
   }"

text \<open>The defensive strategy of lines 44 to 69, on the updated memory.\<close>

definition strategy :: "json \<Rightarrow> json \<Rightarrow> nat \<Rightarrow> json \<Rightarrow> (action \<times> json) option" where
  "strategy neighbors my_energy threats memory = do {
     low \<leftarrow> (if threats \<ge> 2 then py_le my_energy (JInt 4) else Some False);
     if low then do {
       enough \<leftarrow> py_ge my_energy (JInt 3);
       if enough then do {
         memory \<leftarrow> increment memory ''emergency_replications'';
         Some (Replicate, memory)
       } else Some (Rest, memory)
     } else do {
       high \<leftarrow> py_ge my_energy (JInt 10);
       if high then do {
         memory \<leftarrow> increment memory ''replications_made'';
         Some (Replicate, memory)
       } else if threats > 0 then do {
         items \<leftarrow> dict_items neighbors;
         threatening_neighbors \<leftarrow> threatening items my_energy;
         if threatening_neighbors \<noteq> [] then do {
           target_dir \<leftarrow> min_energy_key threatening_neighbors;
           memory \<leftarrow> increment memory ''defensive_attacks'';
           Some (Attack target_dir, memory)
         } else Some (Rest, memory)
       } else do {
         memory \<leftarrow> increment memory ''peaceful_rests'';
         Some (Rest, memory)
       }
     }
   }"

definition choose_action :: "json \<Rightarrow> json \<Rightarrow> (action \<times> json) option" where
  "choose_action world_state memory = do {
     neighbors \<leftarrow> subscript world_state ''neighbors'';
     my_energy \<leftarrow> subscript world_state ''energy'';
     position \<leftarrow> subscript world_state ''position'';
     memory \<leftarrow> update_memory memory position;
     infos \<leftarrow> dict_values neighbors;
     threats \<leftarrow> count_threats infos my_energy;
     strategy neighbors my_energy threats memory
   }"

subsection \<open>The memory store\<close>

text \<open>
  The memory file of an agent is \<^verbatim>\<open>/tmp/agents/<id>/<id>.json\<close>, with the identity taken
  from the environment variable \<^verbatim>\<open>AGENT_ID\<close> and \<^verbatim>\<open>unknown\<close> when it is not set.
\<close>

definition agent_id :: "string option \<Rightarrow> string" where
  "agent_id env = (case env of None \<Rightarrow> ''unknown'' | Some v \<Rightarrow> v)"

definition memory_file :: "string \<Rightarrow> string" where
  "memory_file ident = ''/tmp/agents/'' @ ident @ ''/'' @ ident @ ''.json''"

text \<open>
  The platform as the store sees it: the files, as the text they hold, and Python's JSON
  library, which is not part of the agent and is taken as given.
  \<open>can_read\<close> and \<open>can_write\<close> say whether \<^verbatim>\<open>open(path, 'r')\<close> and
  \<^verbatim>\<open>open(path, 'w')\<close> succeed: opening for writing fails when the directory of the path
  does not exist (the agent never creates it) or permission is missing.
  \<open>json_dump\<close> is what \<^verbatim>\<open>json.dump(memory, f, indent=2)\<close> leaves in the file, which
  \<^verbatim>\<open>open(path, 'w')\<close> has emptied: the whole text when it returns, and the part written
  so far when it raises, because the encoder refuses a value (Python 3.11 refuses an integer
  of more than 4300 digits) or because a write fails. \<open>json_load\<close> is \<^verbatim>\<open>json.load\<close>
  on the text of a file, \<open>None\<close> when it raises.
\<close>

datatype dump_result = Written string | Interrupted string

fun text_left :: "dump_result \<Rightarrow> string" where
  "text_left (Written text) = text"
| "text_left (Interrupted text) = text"

record platform =
  files :: "string \<Rightarrow> string option"
  can_read :: "string \<Rightarrow> bool"
  can_write :: "string \<Rightarrow> bool"
  json_dump :: "json \<Rightarrow> dump_result"
  json_load :: "string \<Rightarrow> json option"

text \<open>\<^verbatim>\<open>load_memory\<close>: every exception, from \<^verbatim>\<open>open\<close> or from \<^verbatim>\<open>json.load\<close>, gives
  the empty memory.\<close>

definition load_memory :: "string \<Rightarrow> platform \<Rightarrow> json" where
  "load_memory ident fs =
     (if can_read fs (memory_file ident) then
        (case files fs (memory_file ident) of
           None \<Rightarrow> JObj []
         | Some text \<Rightarrow>
             (case json_load fs text of
                None \<Rightarrow> JObj []
              | Some memory \<Rightarrow> memory))
      else JObj [])"

text \<open>\<^verbatim>\<open>save_memory\<close>: when \<^verbatim>\<open>open\<close> raises, nothing changes; otherwise the file holds
  what \<^verbatim>\<open>json.dump\<close> left in it, whether it returned or raised. Every exception is
  swallowed.\<close>

definition save_memory :: "string \<Rightarrow> json \<Rightarrow> platform \<Rightarrow> platform" where
  "save_memory ident memory fs =
     (if can_write fs (memory_file ident)
      then fs\<lparr>files := (files fs)(memory_file ident \<mapsto> text_left (json_dump fs memory))\<rparr>
      else fs)"

subsection \<open>The main loop\<close>

text \<open>
  An input line is given by what \<^verbatim>\<open>json.loads(line.strip())\<close> makes of it: the decoded
  value, or \<open>None\<close> when the decoder raises. The \<^verbatim>\<open>try\<close> encloses the whole
  \<^verbatim>\<open>for\<close> loop: an exception in the body leaves the loop, the handler prints the fallback
  action, and \<^verbatim>\<open>main\<close> returns. The result is the list of actions printed and the
  platform, with its files, at the end.
\<close>

fun main_loop :: "string \<Rightarrow> json option list \<Rightarrow> json \<Rightarrow> platform \<Rightarrow> action list \<times> platform" where
  "main_loop ident [] memory fs = ([], fs)"
| "main_loop ident (line # lines) memory fs =
     (case Option.bind line (\<lambda>world_state. choose_action world_state memory) of
        None \<Rightarrow> ([RestMessage], fs)
      | Some (action, updated_memory) \<Rightarrow>
          (let fs' = save_memory ident updated_memory fs;
               (printed, fs'') = main_loop ident lines updated_memory fs'
           in (action # printed, fs'')))"

definition main :: "string option \<Rightarrow> json option list \<Rightarrow> platform \<Rightarrow> action list \<times> platform" where
  "main env lines fs =
     (let ident = agent_id env in main_loop ident lines (load_memory ident fs) fs)"

subsection \<open>Reading observations and memories\<close>

text \<open>
  The functions of this section belong to the statements of the properties, not to the
  agent. \<open>observation\<close> reads a world state the way the data model describes it: the
  neighbours with their energies in the order of the dict, the agent's energy, and its
  position. It is defined exactly on the well-formed observations: objects with the three
  keys, a number as energy, and as neighbors an object (a dict, so without repeated keys)
  of objects that each hold a number under \<^verbatim>\<open>energy\<close>.
\<close>

fun neighbor_energies :: "(string \<times> json) list \<Rightarrow> (string \<times> int) list option" where
  "neighbor_energies [] = Some []"
| "neighbor_energies ((d, info) # items) = do {
     e \<leftarrow> subscript info ''energy'';
     x \<leftarrow> num_of e;
     rest \<leftarrow> neighbor_energies items;
     Some ((d, x) # rest)
   }"

definition observation :: "json \<Rightarrow> ((string \<times> int) list \<times> int \<times> json) option" where
  "observation world_state = do {
     neighbors \<leftarrow> subscript world_state ''neighbors'';
     items \<leftarrow> dict_items neighbors;
     ns \<leftarrow> neighbor_energies items;
     energy \<leftarrow> subscript world_state ''energy'';
     e \<leftarrow> num_of energy;
     position \<leftarrow> subscript world_state ''position'';
     if distinct (map fst items) then Some (ns, e, position) else None
   }"

text \<open>
  A memory is read field by field. A counter that is absent counts as 0 and an absent list
  of positions as empty, as \<^verbatim>\<open>memory.get\<close> with its default reads them. A memory is
  well-formed when each of the six fields of the data model is absent or has its type.
\<close>

definition counter :: "(string \<times> json) list \<Rightarrow> string \<Rightarrow> int" where
  "counter m k = (case map_of m k of None \<Rightarrow> 0 | Some v \<Rightarrow> (case num_of v of None \<Rightarrow> 0 | Some n \<Rightarrow> n))"

definition positions :: "(string \<times> json) list \<Rightarrow> json list" where
  "positions m = (case map_of m ''positions_visited'' of Some (JList xs) \<Rightarrow> xs | _ \<Rightarrow> [])"

definition counter_ok :: "(string \<times> json) list \<Rightarrow> string \<Rightarrow> bool" where
  "counter_ok m k = (case map_of m k of None \<Rightarrow> True | Some v \<Rightarrow> num_of v \<noteq> None)"

definition positions_ok :: "(string \<times> json) list \<Rightarrow> bool" where
  "positions_ok m = (case map_of m ''positions_visited'' of None \<Rightarrow> True | Some (JList xs) \<Rightarrow> True | _ \<Rightarrow> False)"

definition wf_memory :: "(string \<times> json) list \<Rightarrow> bool" where
  "wf_memory m \<longleftrightarrow>
     counter_ok m ''turns_played'' \<and> positions_ok m \<and>
     counter_ok m ''replications_made'' \<and> counter_ok m ''emergency_replications'' \<and>
     counter_ok m ''defensive_attacks'' \<and> counter_ok m ''peaceful_rests''"

text \<open>What \<open>min_scan\<close> computes, on the energies read by \<open>neighbor_energies\<close>.\<close>

fun scan_min :: "string \<Rightarrow> int \<Rightarrow> (string \<times> int) list \<Rightarrow> string" where
  "scan_min best v [] = best"
| "scan_min best v ((d, x) # r) = (if x < v then scan_min d x r else scan_min best v r)"

text \<open>The memory after the bookkeeping of a turn at position \<open>p\<close>.\<close>

definition recorded :: "(string \<times> json) list \<Rightarrow> json \<Rightarrow> (string \<times> json) list" where
  "recorded m p =
     AList.update ''positions_visited'' (JList (last20 (positions m @ [p])))
       (AList.update ''turns_played'' (JInt (counter m ''turns_played'' + 1)) m)"

text \<open>The four counters that a branch of the strategy may increment.\<close>

definition branch_counters :: "string list" where
  "branch_counters =
     [''replications_made'', ''emergency_replications'', ''defensive_attacks'', ''peaceful_rests'']"

text \<open>The number of threats and the threatening neighbours, on the energies read by
  \<open>observation\<close>: a threat is a neighbour whose energy is at least the agent's own, a
  threatening neighbour one with positive energy that is at least the agent's energy
  minus 2.\<close>

definition threat_count :: "int \<Rightarrow> (string \<times> int) list \<Rightarrow> nat" where
  "threat_count e ns = length (filter (\<lambda>(d, x). e \<le> x) ns)"

definition threatening_neighbors :: "int \<Rightarrow> (string \<times> int) list \<Rightarrow> (string \<times> int) list" where
  "threatening_neighbors e ns = filter (\<lambda>(d, x). 0 < x \<and> e - 2 \<le> x) ns"

text \<open>The third branch of the strategy is reached: the conditions of lines 44 and 51 are
  false and the one of line 55 is true.\<close>

definition defensive_branch :: "nat \<Rightarrow> int \<Rightarrow> bool" where
  "defensive_branch threats e \<longleftrightarrow> \<not> (threats \<ge> 2 \<and> e \<le> 4) \<and> \<not> e \<ge> 10 \<and> threats > 0"

text \<open>The world state
  \<^verbatim>\<open>{"position": p, "energy": e, "neighbors": {d: {"energy": x}, ...}}\<close>,
  used for concrete inputs.\<close>

definition world :: "json \<Rightarrow> int \<Rightarrow> (string \<times> int) list \<Rightarrow> json" where
  "world position energy neighbors =
     JObj [(''position'', position), (''energy'', JInt energy),
           (''neighbors'', JObj (map (\<lambda>(d, x). (d, JObj [(''energy'', JInt x)])) neighbors))]"

text \<open>
  Concrete platforms. The JSON library is cut down to one document: it writes and reads the
  memory \<^verbatim>\<open>{"turns_played": 1}\<close> as Python does, with an indent of 2, and on every other
  value the dump is interrupted before anything is written, as on a full disk; the empty
  text does not load. In \<open>no_agents_dir\<close> the directory of the memory files does not
  exist, so that no memory file can be opened; in \<open>agents_dir\<close> every memory file can be
  opened. Neither holds a file yet.
\<close>

definition memory_text :: string where
  "memory_text =
     ''{'' @ [CHR 0x0A] @ ''  '' @ [CHR 0x22] @ ''turns_played'' @ [CHR 0x22] @ '': 1'' @ [CHR 0x0A] @ ''}''"

definition sample_dump :: "json \<Rightarrow> dump_result" where
  "sample_dump v =
     (if v = JObj [(''turns_played'', JInt 1)] then Written memory_text else Interrupted [])"

definition sample_load :: "string \<Rightarrow> json option" where
  "sample_load text =
     (if text = memory_text then Some (JObj [(''turns_played'', JInt 1)]) else None)"

definition no_agents_dir :: platform where
  "no_agents_dir =
     \<lparr>files = Map.empty, can_read = (\<lambda>path. False), can_write = (\<lambda>path. False),
      json_dump = sample_dump, json_load = sample_load\<rparr>"


text \<open>The memory after a sequence of calls of \<open>choose_action\<close>, each on the memory the
  previous call returned, as \<^verbatim>\<open>main\<close> threads it; \<open>None\<close> when a call raises.\<close>

fun decide_all :: "json \<Rightarrow> json list \<Rightarrow> json option" where
  "decide_all memory [] = Some memory"
| "decide_all memory (world_state # rest) = do {
     (action, updated_memory) \<leftarrow> choose_action world_state memory;
     decide_all updated_memory rest
   }"

text \<open>The position a world state reports.\<close>

definition position_of :: "json \<Rightarrow> json" where
  "position_of world_state =
     (case subscript world_state ''position'' of Some p \<Rightarrow> p | None \<Rightarrow> JNull)"

text \<open>A walk in an empty neighbourhood through the given positions, at energy 1.\<close>

definition walk :: "int list \<Rightarrow> json list" where
  "walk ps = map (\<lambda>p. world (JInt p) 1 []) ps"

section \<open>Properties\<close>

subsection \<open>The bookkeeping and the counters\<close>

lemma increment_JObj:
  "counter_ok m k \<Longrightarrow> increment (JObj m) k = Some (JObj (AList.update k (JInt (counter m k + 1)) m))"
  by (auto simp: increment_def counter_ok_def counter_def py_add_def split: option.splits)

lemma increment_SomeD:
  "increment mem k = Some mem' \<Longrightarrow>
     \<exists>m. mem = JObj m \<and> counter_ok m k \<and> mem' = JObj (AList.update k (JInt (counter m k + 1)) m)"
  by (cases mem) (auto simp: increment_def counter_ok_def counter_def py_add_def bind_eq_Some_conv split: option.splits)

lemma update_memory_JObj:
  "counter_ok m ''turns_played'' \<Longrightarrow> positions_ok m \<Longrightarrow>
   update_memory (JObj m) p =
     Some (JObj (AList.update ''positions_visited'' (JList (last20 (positions m @ [p])))
                  (AList.update ''turns_played'' (JInt (counter m ''turns_played'' + 1)) m)))"
  by (auto simp: update_memory_def counter_ok_def positions_ok_def counter_def positions_def py_add_def
       update_conv' split: option.splits json.splits)

lemma update_memory_SomeD:
  "update_memory mem p = Some mem' \<Longrightarrow>
     \<exists>m. mem = JObj m \<and> counter_ok m ''turns_played'' \<and> positions_ok m"
  apply (cases mem)
  apply (auto simp: update_memory_def counter_ok_def positions_ok_def py_add_def
       update_conv' bind_eq_Some_conv split: option.splits json.splits)
  done

subsection \<open>The neighbours: threat count, threatening neighbours, weakest target\<close>

lemma neighbor_energies_keys:
  "neighbor_energies items = Some ns \<Longrightarrow> map fst ns = map fst items"
  by (induction items arbitrary: ns) (auto simp: bind_eq_Some_conv)

lemma count_threats_view:
  "neighbor_energies items = Some ns \<Longrightarrow> num_of my_energy = Some e \<Longrightarrow>
   count_threats (map snd items) my_energy = Some (length (filter (\<lambda>(d, x). e \<le> x) ns))"
  by (induction items arbitrary: ns) (auto simp: bind_eq_Some_conv py_ge_def)

lemma threatening_view:
  "neighbor_energies items = Some ns \<Longrightarrow> num_of my_energy = Some e \<Longrightarrow>
   \<exists>tn. threatening items my_energy = Some tn \<and>
        neighbor_energies tn = Some (filter (\<lambda>(d, x). 0 < x \<and> e - 2 \<le> x) ns)"
proof (induction items arbitrary: ns)
  case Nil
  then show ?case by simp
next
  case (Cons a items)
  obtain d info where a: "a = (d, info)" by (cases a)
  from Cons.prems(1) a obtain v x rest where
    ns: "ns = (d, x) # rest" and v: "subscript info ''energy'' = Some v"
    and x: "num_of v = Some x" and rest: "neighbor_energies items = Some rest"
    by (auto simp: bind_eq_Some_conv)
  from Cons.IH[OF rest Cons.prems(2)] obtain tn where
    tn: "threatening items my_energy = Some tn"
        "neighbor_energies tn = Some (filter (\<lambda>(d, x). 0 < x \<and> e - 2 \<le> x) rest)"
    by blast
  show ?case
    using a ns v x tn Cons.prems(2)
    by (simp add: py_ge_def py_gt_def py_sub_def)
qed

lemma neighbor_energies_lookup:
  "neighbor_energies tn = Some ns \<Longrightarrow> distinct (map fst tn) \<Longrightarrow> (d, x) \<in> set ns \<Longrightarrow>
   \<exists>info v. map_of tn d = Some info \<and> subscript info ''energy'' = Some v \<and> num_of v = Some x"
proof (induction tn arbitrary: ns)
  case Nil
  then show ?case by simp
next
  case (Cons a tn)
  obtain d' info' where a: "a = (d', info')" by (cases a)
  from Cons.prems(1) a obtain v' x' rest where
    ns: "ns = (d', x') # rest" and v': "subscript info' ''energy'' = Some v'"
    and x': "num_of v' = Some x'" and rest: "neighbor_energies tn = Some rest"
    by (auto simp: bind_eq_Some_conv)
  from Cons.prems(2) a have dist: "distinct (map fst tn)" and notin: "d' \<notin> fst ` set tn" by simp_all
  show ?case
  proof (cases "(d, x) \<in> set rest")
    case True
    with neighbor_energies_keys[OF rest] have "d \<in> fst ` set tn"
      by (metis image_eqI fst_conv set_map)
    with notin have "d \<noteq> d'" by auto
    with Cons.IH[OF rest dist True] a show ?thesis by simp
  next
    case False
    with Cons.prems(3) ns have "d = d'" "x = x'" by simp_all
    with a v' x' show ?thesis by simp
  qed
qed

lemma min_scan_view:
  "(\<And>d x. (d, x) \<in> set r \<Longrightarrow>
      \<exists>info v. map_of tn d = Some info \<and> subscript info ''energy'' = Some v \<and> num_of v = Some x) \<Longrightarrow>
   num_of best_val = Some v0 \<Longrightarrow>
   min_scan tn best best_val (map fst r) = Some (scan_min best v0 r)"
proof (induction r arbitrary: best best_val v0)
  case Nil
  then show ?case by simp
next
  case (Cons a r)
  obtain d x where a: "a = (d, x)" by (cases a)
  from Cons.prems(1)[of d x] a obtain info v where
    look: "map_of tn d = Some info" "subscript info ''energy'' = Some v" "num_of v = Some x"
    by auto
  have rest: "\<And>d x. (d, x) \<in> set r \<Longrightarrow>
      \<exists>info v. map_of tn d = Some info \<and> subscript info ''energy'' = Some v \<and> num_of v = Some x"
    using Cons.prems(1) by simp
  show ?case
    using look Cons.prems(2) Cons.IH[OF rest look(3)] Cons.IH[OF rest Cons.prems(2)] a
    by (simp add: py_lt_def)
qed

lemma scan_min_first:
  "\<forall>y \<in> snd ` set before. v < y \<Longrightarrow> \<forall>y \<in> snd ` set mid. v \<le> y \<Longrightarrow>
   \<exists>pre x post. before @ (b, v) # mid @ r = pre @ (scan_min b v r, x) # post \<and>
      (\<forall>y \<in> snd ` set pre. x < y) \<and> (\<forall>y \<in> snd ` set post. x \<le> y)"
proof (induction r arbitrary: b v before mid)
  case Nil
  then show ?case by auto
next
  case (Cons a r)
  obtain d x where a: "a = (d, x)" by (cases a)
  show ?case
  proof (cases "x < v")
    case True
    have 1: "\<forall>y \<in> snd ` set (before @ (b, v) # mid). x < y"
      using Cons.prems True by fastforce
    have 2: "\<forall>y \<in> snd ` set ([] :: (string \<times> int) list). x \<le> y" by simp
    from Cons.IH[OF 1 2, of d] a True show ?thesis by simp
  next
    case False
    have 2: "\<forall>y \<in> snd ` set (mid @ [(d, x)]). v \<le> y"
      using Cons.prems False by auto
    from Cons.IH[OF Cons.prems(1) 2, of b] a False show ?thesis by simp
  qed
qed

lemma min_energy_key_view:
  assumes "neighbor_energies tn = Some ns" and "distinct (map fst tn)" and "ns \<noteq> []"
  shows "\<exists>pre target x post. min_energy_key tn = Some target \<and> ns = pre @ (target, x) # post \<and>
      (\<forall>y \<in> snd ` set pre. x < y) \<and> (\<forall>y \<in> snd ` set post. x \<le> y)"
proof -
  from assms(3) obtain d x r where ns: "ns = (d, x) # r" by (cases ns) auto
  from neighbor_energies_lookup[OF assms(1,2), of d x] ns obtain info v where
    look: "map_of tn d = Some info" "subscript info ''energy'' = Some v" "num_of v = Some x"
    by auto
  have rest: "\<And>d x. (d, x) \<in> set r \<Longrightarrow>
      \<exists>info v. map_of tn d = Some info \<and> subscript info ''energy'' = Some v \<and> num_of v = Some x"
    using neighbor_energies_lookup[OF assms(1,2)] ns by simp
  have keys: "map fst tn = d # map fst r"
    using neighbor_energies_keys[OF assms(1)] ns by simp
  have key: "min_energy_key tn = Some (scan_min d x r)"
    using look min_scan_view[OF rest look(3), of r d] keys
    by (simp add: min_energy_key_def)
  from scan_min_first[of "[]" x "[]" d r] ns key show ?thesis
    by auto
qed

subsection \<open>The decision on well-formed inputs\<close>

lemma recorded_lookup:
  "map_of (recorded m p) k =
     (if k = ''positions_visited'' then Some (JList (last20 (positions m @ [p])))
      else if k = ''turns_played'' then Some (JInt (counter m ''turns_played'' + 1))
      else map_of m k)"
  by (simp add: recorded_def update_conv')

lemma recorded_counter_ok:
  "k \<in> set branch_counters \<Longrightarrow> counter_ok (recorded m p) k = counter_ok m k"
  by (auto simp: counter_ok_def recorded_lookup branch_counters_def)

lemma recorded_counter:
  "k \<in> set branch_counters \<Longrightarrow> counter (recorded m p) k = counter m k"
  by (auto simp: counter_def recorded_lookup branch_counters_def)

lemma choose_action_view:
  assumes "observation world_state = Some (ns, e, p)" and "wf_memory m"
  shows "\<exists>items my_energy.
           neighbor_energies items = Some ns \<and> distinct (map fst items) \<and> num_of my_energy = Some e \<and>
           choose_action world_state (JObj m) =
             strategy (JObj items) my_energy (length (filter (\<lambda>(d, x). e \<le> x) ns)) (JObj (recorded m p))"
proof -
  from assms(1) obtain neighbors items my_energy where
    parts: "subscript world_state ''neighbors'' = Some neighbors" "dict_items neighbors = Some items"
      "neighbor_energies items = Some ns" "subscript world_state ''energy'' = Some my_energy"
      "num_of my_energy = Some e" "subscript world_state ''position'' = Some p"
      "distinct (map fst items)"
    by (auto simp: observation_def bind_eq_Some_conv split: if_splits)
  from parts(2) have nb: "neighbors = JObj items" by (cases neighbors) simp_all
  from assms(2) have mem: "update_memory (JObj m) p = Some (JObj (recorded m p))"
    by (simp add: wf_memory_def update_memory_JObj recorded_def)
  have "choose_action world_state (JObj m) =
      strategy (JObj items) my_energy (length (filter (\<lambda>(d, x). e \<le> x) ns)) (JObj (recorded m p))"
    using parts(1,4,6) nb mem count_threats_view[OF parts(3,5)]
    by (simp add: choose_action_def)
  with parts show ?thesis by blast
qed

lemma strategy_frame:
  "strategy neighbors my_energy threats (JObj m) = Some (a, mem') \<Longrightarrow>
   mem' = JObj m \<or>
   (\<exists>c \<in> set branch_counters. counter_ok m c \<and> mem' = JObj (AList.update c (JInt (counter m c + 1)) m))"
  by (auto simp: strategy_def bind_eq_Some_conv branch_counters_def
           split: if_splits dest!: increment_SomeD)

lemma strategy_emergency:
  assumes "num_of my_energy = Some e" "2 \<le> threats" "e \<le> 4" "3 \<le> e"
    and "counter_ok m ''emergency_replications''"
  shows "strategy neighbors my_energy threats (JObj m) =
           Some (Replicate, JObj (AList.update ''emergency_replications''
                                    (JInt (counter m ''emergency_replications'' + 1)) m))"
  using assms by (simp add: strategy_def py_le_def py_ge_def increment_JObj)

lemma threatening_distinct:
  assumes "neighbor_energies items = Some ns" "distinct (map fst items)"
    and "neighbor_energies tn = Some (filter P ns)"
  shows "distinct (map fst tn)"
proof -
  have "map fst tn = map fst (filter P ns)"
    using neighbor_energies_keys[OF assms(3)] by simp
  moreover have "distinct (map fst ns)"
    using neighbor_energies_keys[OF assms(1)] assms(2) by simp
  ultimately show ?thesis by (simp add: distinct_map_filter)
qed

lemma strategy_attack:
  assumes items: "neighbor_energies items = Some ns" "distinct (map fst items)"
    and e: "num_of my_energy = Some e"
    and branch: "defensive_branch threats e"
    and tn: "filter (\<lambda>(d, x). 0 < x \<and> e - 2 \<le> x) ns \<noteq> []"
    and ok: "counter_ok m ''defensive_attacks''"
  shows "\<exists>pre target x post.
           strategy (JObj items) my_energy threats (JObj m) =
             Some (Attack target, JObj (AList.update ''defensive_attacks''
                                          (JInt (counter m ''defensive_attacks'' + 1)) m)) \<and>
           filter (\<lambda>(d, x). 0 < x \<and> e - 2 \<le> x) ns = pre @ (target, x) # post \<and>
           (\<forall>y \<in> snd ` set pre. x < y) \<and> (\<forall>y \<in> snd ` set post. x \<le> y)"
proof -
  from threatening_view[OF items(1) e] obtain tn where
    t1: "threatening items my_energy = Some tn"
    and t2: "neighbor_energies tn = Some (filter (\<lambda>(d, x). 0 < x \<and> e - 2 \<le> x) ns)"
    by blast
  from t2 tn have ne: "tn \<noteq> []" by auto
  from min_energy_key_view[OF t2 threatening_distinct[OF items t2] tn] obtain pre target x post where
    found: "min_energy_key tn = Some target \<and>
      filter (\<lambda>(d, x). 0 < x \<and> e - 2 \<le> x) ns = pre @ (target, x) # post \<and>
      (\<forall>y \<in> snd ` set pre. x < y) \<and> (\<forall>y \<in> snd ` set post. x \<le> y)"
    by (elim exE) (rule that)
  from found have m1: "min_energy_key tn = Some target" by (rule conjunct1)
  from found have m2: "filter (\<lambda>(d, x). 0 < x \<and> e - 2 \<le> x) ns = pre @ (target, x) # post \<and>
      (\<forall>y \<in> snd ` set pre. x < y) \<and> (\<forall>y \<in> snd ` set post. x \<le> y)"
    by (rule conjunct2)
  have res: "strategy (JObj items) my_energy threats (JObj m) =
      Some (Attack target, JObj (AList.update ''defensive_attacks''
                                   (JInt (counter m ''defensive_attacks'' + 1)) m))"
    using e branch t1 ne m1 ok
    by (simp add: strategy_def defensive_branch_def py_le_def py_ge_def increment_JObj)
  show ?thesis
    by (rule exI[of _ pre], rule exI[of _ target], rule exI[of _ x], rule exI[of _ post])
       (rule conjI[OF res m2])
qed

lemma strategy_total:
  assumes items: "neighbor_energies items = Some ns" "distinct (map fst items)"
    and e: "num_of my_energy = Some e"
    and ok: "\<forall>c \<in> set branch_counters. counter_ok m c"
  shows "\<exists>a mem'. strategy (JObj items) my_energy threats (JObj m) = Some (a, mem')"
proof -
  from threatening_view[OF items(1) e] obtain tn where
    t1: "threatening items my_energy = Some tn"
    and t2: "neighbor_energies tn = Some (filter (\<lambda>(d, x). 0 < x \<and> e - 2 \<le> x) ns)"
    by blast
  have key: "tn \<noteq> [] \<Longrightarrow> \<exists>target. min_energy_key tn = Some target"
  proof -
    assume "tn \<noteq> []"
    moreover have "map fst (filter (\<lambda>(d, x). 0 < x \<and> e - 2 \<le> x) ns) = map fst tn"
      by (rule neighbor_energies_keys[OF t2])
    ultimately have "filter (\<lambda>(d, x). 0 < x \<and> e - 2 \<le> x) ns \<noteq> []"
      by (metis map_is_Nil_conv)
    from min_energy_key_view[OF t2 threatening_distinct[OF items t2] this]
    show ?thesis by blast
  qed
  show ?thesis
  proof (cases "tn = []")
    case True
    then show ?thesis
      using e t1 ok
      by (simp add: strategy_def py_le_def py_ge_def increment_JObj branch_counters_def)
  next
    case False
    from key[OF False] obtain target where "min_energy_key tn = Some target" by blast
    then show ?thesis
      using e t1 ok False
      by (simp add: strategy_def py_le_def py_ge_def increment_JObj branch_counters_def)
  qed
qed

lemma update_other:
  "k \<noteq> c \<Longrightarrow> map_of (AList.update c v m) k = map_of m k"
  by (simp add: update_conv')

lemma update_same:
  "map_of (AList.update c v m) c = Some v"
  by (simp add: update_conv')

lemma wf_memory_counters:
  "wf_memory m \<Longrightarrow> c \<in> set branch_counters \<Longrightarrow> counter_ok m c"
  by (auto simp: wf_memory_def branch_counters_def)

lemma choose_action_SomeD:
  assumes "choose_action world_state mem = Some (a, mem')"
  shows "\<exists>m p neighbors my_energy threats.
           mem = JObj m \<and> counter_ok m ''turns_played'' \<and> positions_ok m \<and>
           subscript world_state ''position'' = Some p \<and>
           strategy neighbors my_energy threats (JObj (recorded m p)) = Some (a, mem')"
proof -
  from assms obtain neighbors my_energy p mem1 threats where
    p: "subscript world_state ''position'' = Some p"
    and up: "update_memory mem p = Some mem1"
    and st: "strategy neighbors my_energy threats mem1 = Some (a, mem')"
    by (auto simp: choose_action_def bind_eq_Some_conv)
  from update_memory_SomeD[OF up] obtain m where
    m: "mem = JObj m" "counter_ok m ''turns_played''" "positions_ok m" by blast
  with up have "mem1 = JObj (recorded m p)"
    by (simp add: update_memory_JObj recorded_def)
  with st m p show ?thesis by blast
qed

text \<open>The memory returned is the recorded one, with at most one branch counter incremented.\<close>

lemma choose_action_result:
  assumes "choose_action world_state mem = Some (a, mem')"
  shows "\<exists>m p. mem = JObj m \<and> counter_ok m ''turns_played'' \<and> positions_ok m \<and>
           subscript world_state ''position'' = Some p \<and>
           (mem' = JObj (recorded m p) \<or>
            (\<exists>c \<in> set branch_counters. counter_ok m c \<and>
               mem' = JObj (AList.update c (JInt (counter m c + 1)) (recorded m p))))"
proof -
  from choose_action_SomeD[OF assms] obtain m p neighbors my_energy threats where
    m: "mem = JObj m" "counter_ok m ''turns_played''" "positions_ok m"
       "subscript world_state ''position'' = Some p"
    and st: "strategy neighbors my_energy threats (JObj (recorded m p)) = Some (a, mem')"
    by blast
  from strategy_frame[OF st] have
    "mem' = JObj (recorded m p) \<or>
       (\<exists>c \<in> set branch_counters. counter_ok m c \<and>
          mem' = JObj (AList.update c (JInt (counter m c + 1)) (recorded m p)))"
    by (auto simp: recorded_counter recorded_counter_ok)
  with m show ?thesis by blast
qed

subsection \<open>The emergency branch\<close>

text \<open>
  Claim C3. For every observation and memory where the number of neighbours with
  energy \<open>\<ge> my_energy\<close> is at least 2, \<open>my_energy \<le> 4\<close> and \<open>my_energy \<ge> 3\<close>,
  \<open>choose_action\<close> returns the action replicate and a memory in which
  \<^verbatim>\<open>emergency_replications\<close> is one more than before (an absent counter counting as 0),
  while \<^verbatim>\<open>replications_made\<close>, \<^verbatim>\<open>defensive_attacks\<close> and \<^verbatim>\<open>peaceful_rests\<close> are
  unchanged. The observation and the memory are well-formed in the sense of the data model.
\<close>

theorem emergency_replicate:
  assumes "observation world_state = Some (ns, e, p)" and "wf_memory m"
    and "2 \<le> threat_count e ns" and "e \<le> 4" and "3 \<le> e"
  shows "\<exists>m'. choose_action world_state (JObj m) = Some (Replicate, JObj m') \<and>
           map_of m' ''emergency_replications'' =
             Some (JInt (counter m ''emergency_replications'' + 1)) \<and>
           map_of m' ''replications_made'' = map_of m ''replications_made'' \<and>
           map_of m' ''defensive_attacks'' = map_of m ''defensive_attacks'' \<and>
           map_of m' ''peaceful_rests'' = map_of m ''peaceful_rests''"
proof -
  from choose_action_view[OF assms(1,2)] obtain items my_energy where
    e: "num_of my_energy = Some e"
    and ch: "choose_action world_state (JObj m) =
      strategy (JObj items) my_energy (length (filter (\<lambda>(d, x). e \<le> x) ns)) (JObj (recorded m p))"
    by (elim exE conjE) (rule that)
  have ok: "counter_ok (recorded m p) ''emergency_replications''"
    using assms(2) by (simp add: recorded_counter_ok branch_counters_def wf_memory_def)
  have cnt: "counter (recorded m p) ''emergency_replications'' = counter m ''emergency_replications''"
    by (simp add: recorded_counter branch_counters_def)
  let ?m' = "AList.update ''emergency_replications''
               (JInt (counter m ''emergency_replications'' + 1)) (recorded m p)"
  have threats: "2 \<le> length (filter (\<lambda>(d, x). e \<le> x) ns)"
    using assms(3) by (simp add: threat_count_def)
  have "choose_action world_state (JObj m) = Some (Replicate, JObj ?m')"
    using strategy_emergency[OF e threats assms(4,5) ok] ch cnt by simp
  moreover have "map_of ?m' ''emergency_replications'' =
      Some (JInt (counter m ''emergency_replications'' + 1))"
    by (rule update_same)
  moreover have "map_of ?m' ''replications_made'' = map_of m ''replications_made''"
    by (simp add: update_other recorded_lookup)
  moreover have "map_of ?m' ''defensive_attacks'' = map_of m ''defensive_attacks''"
    by (simp add: update_other recorded_lookup)
  moreover have "map_of ?m' ''peaceful_rests'' = map_of m ''peaceful_rests''"
    by (simp add: update_other recorded_lookup)
  ultimately show ?thesis by blast
qed

text \<open>An instance: energy 3 between neighbours of energy 5 and 3, the counter at 4.\<close>

theorem emergency_replicate_witness:
  "observation (world (JInt 7) 3 [(''N'', 5), (''S'', 3)]) = Some ([(''N'', 5), (''S'', 3)], 3, JInt 7) \<and>
   wf_memory [(''emergency_replications'', JInt 4), (''peaceful_rests'', JInt 2)] \<and>
   threat_count 3 [(''N'', 5), (''S'', 3)] = 2 \<and>
   (\<exists>m'. choose_action (world (JInt 7) 3 [(''N'', 5), (''S'', 3)])
            (JObj [(''emergency_replications'', JInt 4), (''peaceful_rests'', JInt 2)]) =
            Some (Replicate, JObj m') \<and>
         map_of m' ''emergency_replications'' = Some (JInt 5) \<and>
         map_of m' ''replications_made'' = None \<and>
         map_of m' ''defensive_attacks'' = None \<and>
         map_of m' ''peaceful_rests'' = Some (JInt 2))"
proof -
  have obs: "observation (world (JInt 7) 3 [(''N'', 5), (''S'', 3)]) =
      Some ([(''N'', 5), (''S'', 3)], 3, JInt 7)"
    by (simp add: observation_def world_def)
  have wf: "wf_memory [(''emergency_replications'', JInt 4), (''peaceful_rests'', JInt 2)]"
    by (simp add: wf_memory_def counter_ok_def positions_ok_def)
  have count: "threat_count 3 [(''N'', 5), (''S'', 3)] = 2"
    by (simp add: threat_count_def)
  then have threats: "2 \<le> threat_count 3 [(''N'', 5), (''S'', 3)]"
    by simp
  from emergency_replicate[OF obs wf threats] obs wf count show ?thesis
    by (simp add: counter_def)
qed

text \<open>The attack of the third branch, on well-formed inputs.\<close>

lemma choose_action_attack:
  assumes "observation world_state = Some (ns, e, p)" and "wf_memory m"
    and "defensive_branch (threat_count e ns) e"
    and "threatening_neighbors e ns \<noteq> []"
  shows "\<exists>pre target x post m'.
           choose_action world_state (JObj m) = Some (Attack target, JObj m') \<and>
           threatening_neighbors e ns = pre @ (target, x) # post \<and>
           (\<forall>y \<in> snd ` set pre. x < y) \<and> (\<forall>y \<in> snd ` set post. x \<le> y) \<and>
           map_of m' ''defensive_attacks'' = Some (JInt (counter m ''defensive_attacks'' + 1))"
proof -
  from choose_action_view[OF assms(1,2)] obtain items my_energy where
    items: "neighbor_energies items = Some ns" "distinct (map fst items)"
    and e: "num_of my_energy = Some e"
    and ch: "choose_action world_state (JObj m) =
      strategy (JObj items) my_energy (length (filter (\<lambda>(d, x). e \<le> x) ns)) (JObj (recorded m p))"
    by (elim exE conjE) (rule that)
  have ok: "counter_ok (recorded m p) ''defensive_attacks''"
    using assms(2) by (simp add: recorded_counter_ok branch_counters_def wf_memory_def)
  have cnt: "counter (recorded m p) ''defensive_attacks'' = counter m ''defensive_attacks''"
    by (simp add: recorded_counter branch_counters_def)
  have br: "defensive_branch (length (filter (\<lambda>(d, x). e \<le> x) ns)) e"
    using assms(3) by (simp add: threat_count_def)
  have ne: "filter (\<lambda>(d, x). 0 < x \<and> e - 2 \<le> x) ns \<noteq> []"
    using assms(4) by (simp add: threatening_neighbors_def)
  let ?m' = "AList.update ''defensive_attacks''
               (JInt (counter m ''defensive_attacks'' + 1)) (recorded m p)"
  from strategy_attack[OF items e br ne ok] obtain pre target x post where
    st: "strategy (JObj items) my_energy (length (filter (\<lambda>(d, x). e \<le> x) ns)) (JObj (recorded m p)) =
           Some (Attack target, JObj (AList.update ''defensive_attacks''
                   (JInt (counter (recorded m p) ''defensive_attacks'' + 1)) (recorded m p)))"
    and sp: "filter (\<lambda>(d, x). 0 < x \<and> e - 2 \<le> x) ns = pre @ (target, x) # post"
    and lo: "\<forall>y \<in> snd ` set pre. x < y" and hi: "\<forall>y \<in> snd ` set post. x \<le> y"
    by (elim exE conjE) (rule that)
  have 1: "choose_action world_state (JObj m) = Some (Attack target, JObj ?m')"
    using st ch cnt by simp
  have 2: "threatening_neighbors e ns = pre @ (target, x) # post"
    using sp by (simp add: threatening_neighbors_def)
  have 3: "map_of ?m' ''defensive_attacks'' = Some (JInt (counter m ''defensive_attacks'' + 1))"
    by (rule update_same)
  show ?thesis
    by (rule exI[of _ pre], rule exI[of _ target], rule exI[of _ x], rule exI[of _ post],
        rule exI[of _ ?m'])
       (intro conjI 1 2 lo hi 3)
qed

subsection \<open>The defensive attack\<close>

text \<open>
  Claim C5. Whenever the defensive-attack branch fires and the threatening-neighbour subset
  is non-empty, the action is an attack on the direction with minimum energy among the
  threatening neighbours, the first such direction in the order of the dict: every
  threatening neighbour before the target has strictly more energy and every one after it
  at least as much. \<^verbatim>\<open>defensive_attacks\<close> is one more than before.
\<close>

theorem defensive_attack:
  assumes "observation world_state = Some (ns, e, p)" and "wf_memory m"
    and "defensive_branch (threat_count e ns) e"
    and "threatening_neighbors e ns \<noteq> []"
  shows "\<exists>pre target x post m'.
           choose_action world_state (JObj m) = Some (Attack target, JObj m') \<and>
           threatening_neighbors e ns = pre @ (target, x) # post \<and>
           (\<forall>y \<in> snd ` set pre. x < y) \<and> (\<forall>y \<in> snd ` set post. x \<le> y) \<and>
           map_of m' ''defensive_attacks'' = Some (JInt (counter m ''defensive_attacks'' + 1))"
  using assms by (rule choose_action_attack)

text \<open>The example of the specification: neighbours N with energy 5 and S with energy 3, own
  energy 5. N is the only threat, both neighbours are threatening, and the attack goes to S.\<close>

theorem defensive_attack_witness:
  "observation (world (JInt 0) 5 [(''N'', 5), (''S'', 3)]) = Some ([(''N'', 5), (''S'', 3)], 5, JInt 0) \<and>
   wf_memory [] \<and>
   defensive_branch (threat_count 5 [(''N'', 5), (''S'', 3)]) 5 \<and>
   threatening_neighbors 5 [(''N'', 5), (''S'', 3)] = [(''N'', 5), (''S'', 3)] \<and>
   choose_action (world (JInt 0) 5 [(''N'', 5), (''S'', 3)]) (JObj []) =
     Some (Attack ''S'', JObj [(''turns_played'', JInt 1), (''positions_visited'', JList [JInt 0]),
                              (''defensive_attacks'', JInt 1)])"
proof -
  have obs: "observation (world (JInt 0) 5 [(''N'', 5), (''S'', 3)]) =
      Some ([(''N'', 5), (''S'', 3)], 5, JInt 0)"
    by (simp add: observation_def world_def)
  have wf: "wf_memory []"
    by (simp add: wf_memory_def counter_ok_def positions_ok_def)
  have br: "defensive_branch (threat_count 5 [(''N'', 5), (''S'', 3)]) 5"
    by (simp add: defensive_branch_def threat_count_def)
  have tn: "threatening_neighbors 5 [(''N'', 5), (''S'', 3)] = [(''N'', 5), (''S'', 3)]"
    by (simp add: threatening_neighbors_def)
  have ne: "threatening_neighbors 5 [(''N'', 5), (''S'', 3)] \<noteq> []"
    by (simp add: tn)
  from defensive_attack[OF obs wf br ne] obtain pre target x post m' where
    act: "choose_action (world (JInt 0) 5 [(''N'', 5), (''S'', 3)]) (JObj []) =
            Some (Attack target, JObj m')"
    by (elim exE conjE) (rule that)
  have run: "choose_action (world (JInt 0) 5 [(''N'', 5), (''S'', 3)]) (JObj []) =
     Some (Attack ''S'', JObj [(''turns_played'', JInt 1), (''positions_visited'', JList [JInt 0]),
                              (''defensive_attacks'', JInt 1)])"
    by (simp add: world_def choose_action_def update_memory_def strategy_def increment_def
          py_add_def py_ge_def py_le_def py_gt_def py_lt_def py_sub_def last20_def
          min_energy_key_def)
  from act run obs wf br tn show ?thesis by simp
qed

lemma choose_action_defined:
  assumes "observation world_state = Some (ns, e, p)" and "wf_memory m"
  shows "\<exists>a mem'. choose_action world_state (JObj m) = Some (a, mem')"
proof -
  from choose_action_view[OF assms] obtain items my_energy where
    items: "neighbor_energies items = Some ns" "distinct (map fst items)"
    and e: "num_of my_energy = Some e"
    and ch: "choose_action world_state (JObj m) =
      strategy (JObj items) my_energy (length (filter (\<lambda>(d, x). e \<le> x) ns)) (JObj (recorded m p))"
    by (elim exE conjE) (rule that)
  have ok: "\<forall>c \<in> set branch_counters. counter_ok (recorded m p) c"
    using assms(2) by (simp add: recorded_counter_ok wf_memory_counters)
  from strategy_total[OF items e ok] ch show ?thesis by simp
qed

lemma observation_position:
  "observation world_state = Some (ns, e, p) \<Longrightarrow> subscript world_state ''position'' = Some p"
  by (auto simp: observation_def bind_eq_Some_conv split: if_splits)

text \<open>On well-formed inputs the decision succeeds, and its memory is the recorded one with
  at most one branch counter incremented.\<close>

lemma choose_action_wf:
  assumes "observation world_state = Some (ns, e, p)" and "wf_memory m"
  shows "\<exists>a m'. choose_action world_state (JObj m) = Some (a, JObj m') \<and>
           (m' = recorded m p \<or>
            (\<exists>c \<in> set branch_counters. m' = AList.update c (JInt (counter m c + 1)) (recorded m p)))"
proof -
  from choose_action_defined[OF assms] obtain a mem' where
    ch: "choose_action world_state (JObj m) = Some (a, mem')" by blast
  from choose_action_result[OF ch] observation_position[OF assms(1)]
  have "mem' = JObj (recorded m p) \<or>
       (\<exists>c \<in> set branch_counters.
          mem' = JObj (AList.update c (JInt (counter m c + 1)) (recorded m p)))"
    by auto
  with ch show ?thesis by auto
qed

lemma branch_counter_not_bookkeeping:
  "c \<in> set branch_counters \<Longrightarrow> c \<noteq> ''turns_played'' \<and> c \<noteq> ''positions_visited''"
  by (auto simp: branch_counters_def)

subsection \<open>One action and one turn per call\<close>

text \<open>
  Claim C6. For every well-formed observation and every memory, \<open>choose_action\<close> returns
  one action and an updated memory whose \<^verbatim>\<open>turns_played\<close> is exactly one greater than
  before the call (an absent counter counting as 0).
\<close>

theorem turns_played_incremented:
  assumes "observation world_state = Some (ns, e, p)" and "wf_memory m"
  shows "\<exists>a m'. choose_action world_state (JObj m) = Some (a, JObj m') \<and>
           map_of m' ''turns_played'' = Some (JInt (counter m ''turns_played'' + 1))"
proof -
  from choose_action_wf[OF assms] obtain a m' where
    ch: "choose_action world_state (JObj m) = Some (a, JObj m')"
    and m': "m' = recorded m p \<or>
       (\<exists>c \<in> set branch_counters. m' = AList.update c (JInt (counter m c + 1)) (recorded m p))"
    by blast
  from m' have "map_of m' ''turns_played'' = Some (JInt (counter m ''turns_played'' + 1))"
    by (auto simp: recorded_lookup update_conv' dest: branch_counter_not_bookkeeping)
  with ch show ?thesis by blast
qed

text \<open>An instance: the eighth turn of an agent that rests in peace.\<close>

theorem turns_played_incremented_witness:
  "observation (world (JInt 0) 1 []) = Some ([], 1, JInt 0) \<and>
   wf_memory [(''turns_played'', JInt 7)] \<and>
   (\<exists>a m'. choose_action (world (JInt 0) 1 []) (JObj [(''turns_played'', JInt 7)]) = Some (a, JObj m') \<and>
      map_of m' ''turns_played'' = Some (JInt 8))"
proof -
  have obs: "observation (world (JInt 0) 1 []) = Some ([], 1, JInt 0)"
    by (simp add: observation_def world_def)
  have wf: "wf_memory [(''turns_played'', JInt 7)]"
    by (simp add: wf_memory_def counter_ok_def positions_ok_def)
  from turns_played_incremented[OF obs wf] obs wf show ?thesis
    by (simp add: counter_def)
qed

subsection \<open>Partial memories\<close>

text \<open>
  Claim C9. \<open>choose_action\<close> is total over partial memories: for every well-formed
  observation and every memory in which any or all of \<^verbatim>\<open>turns_played\<close>,
  \<^verbatim>\<open>positions_visited\<close> and the four branch counters are absent (the fields that are
  present having their type), the call succeeds. An absent \<^verbatim>\<open>turns_played\<close> is read as 0
  and becomes 1, an absent \<^verbatim>\<open>positions_visited\<close> is read as the empty list and becomes
  the list of the current position, and an absent branch counter stays absent or becomes 1.
\<close>

theorem partial_memory_total:
  assumes "observation world_state = Some (ns, e, p)" and "wf_memory m"
  shows "\<exists>a m'. choose_action world_state (JObj m) = Some (a, JObj m') \<and>
           (map_of m ''turns_played'' = None \<longrightarrow> map_of m' ''turns_played'' = Some (JInt 1)) \<and>
           (map_of m ''positions_visited'' = None \<longrightarrow>
              map_of m' ''positions_visited'' = Some (JList [p])) \<and>
           (\<forall>c \<in> set branch_counters. map_of m c = None \<longrightarrow>
              map_of m' c = None \<or> map_of m' c = Some (JInt 1))"
proof -
  from choose_action_wf[OF assms] obtain a m' where
    ch: "choose_action world_state (JObj m) = Some (a, JObj m')"
    and m': "m' = recorded m p \<or>
       (\<exists>c \<in> set branch_counters. m' = AList.update c (JInt (counter m c + 1)) (recorded m p))"
    by blast
  from m' have 1: "map_of m ''turns_played'' = None \<longrightarrow> map_of m' ''turns_played'' = Some (JInt 1)"
    by (auto simp: recorded_lookup update_conv' counter_def dest: branch_counter_not_bookkeeping)
  from m' have 2: "map_of m ''positions_visited'' = None \<longrightarrow>
      map_of m' ''positions_visited'' = Some (JList [p])"
    by (auto simp: recorded_lookup update_conv' positions_def last20_def
             dest: branch_counter_not_bookkeeping)
  have 3: "\<forall>c \<in> set branch_counters. map_of m c = None \<longrightarrow>
      map_of m' c = None \<or> map_of m' c = Some (JInt 1)"
  proof (intro ballI impI)
    fix c assume c: "c \<in> set branch_counters" and absent: "map_of m c = None"
    from branch_counter_not_bookkeeping[OF c] absent have r: "map_of (recorded m p) c = None"
      by (simp add: recorded_lookup)
    from absent have z: "counter m c = 0" by (simp add: counter_def)
    from m' r z show "map_of m' c = None \<or> map_of m' c = Some (JInt 1)"
      by (auto simp: update_conv')
  qed
  show ?thesis
    by (rule exI[of _ a], rule exI[of _ m']) (intro conjI ch 1 2 3)
qed

text \<open>An instance: the first turn, on the empty memory that \<open>load_memory\<close> gives on a first
  run or after a failed load.\<close>

theorem partial_memory_total_witness:
  "observation (world (JInt 0) 1 []) = Some ([], 1, JInt 0) \<and> wf_memory [] \<and>
   choose_action (world (JInt 0) 1 []) (JObj []) =
     Some (Rest, JObj [(''turns_played'', JInt 1), (''positions_visited'', JList [JInt 0]),
                      (''peaceful_rests'', JInt 1)])"
proof -
  have obs: "observation (world (JInt 0) 1 []) = Some ([], 1, JInt 0)"
    by (simp add: observation_def world_def)
  have wf: "wf_memory []"
    by (simp add: wf_memory_def counter_ok_def positions_ok_def)
  from partial_memory_total[OF obs wf] obtain a m' where
    ch: "choose_action (world (JInt 0) 1 []) (JObj []) = Some (a, JObj m')"
    by blast
  have run: "choose_action (world (JInt 0) 1 []) (JObj []) =
     Some (Rest, JObj [(''turns_played'', JInt 1), (''positions_visited'', JList [JInt 0]),
                      (''peaceful_rests'', JInt 1)])"
    by (simp add: world_def choose_action_def update_memory_def strategy_def increment_def
          py_add_def py_ge_def py_le_def last20_def)
  from ch run obs wf show ?thesis by simp
qed

subsection \<open>The frame of the decision\<close>

text \<open>
  Claim C10. For every observation and memory, \<open>choose_action\<close> changes only the fields
  \<^verbatim>\<open>turns_played\<close>, \<^verbatim>\<open>positions_visited\<close> and at most one of the four branch counters;
  every other key has in the returned memory the value it has in the input memory
  (and a key that is absent stays absent).
\<close>

theorem memory_frame:
  assumes "choose_action world_state mem = Some (a, mem')"
  shows "\<exists>m m' changed. mem = JObj m \<and> mem' = JObj m' \<and>
           set changed \<subseteq> set branch_counters \<and> length changed \<le> 1 \<and>
           (\<forall>k. k \<notin> {''turns_played'', ''positions_visited''} \<union> set changed \<longrightarrow>
                map_of m' k = map_of m k)"
proof -
  from choose_action_result[OF assms] obtain m p where
    m: "mem = JObj m"
    and m': "mem' = JObj (recorded m p) \<or>
       (\<exists>c \<in> set branch_counters.
          counter_ok m c \<and> mem' = JObj (AList.update c (JInt (counter m c + 1)) (recorded m p)))"
    by blast
  from m' show ?thesis
  proof
    assume r: "mem' = JObj (recorded m p)"
    have "\<forall>k. k \<notin> {''turns_played'', ''positions_visited''} \<union> set [] \<longrightarrow>
        map_of (recorded m p) k = map_of m k"
      by (simp add: recorded_lookup)
    with m r show ?thesis
      by (intro exI[of _ m] exI[of _ "recorded m p"] exI[of _ "[]"]) simp
  next
    assume "\<exists>c \<in> set branch_counters.
      counter_ok m c \<and> mem' = JObj (AList.update c (JInt (counter m c + 1)) (recorded m p))"
    then obtain c where c: "c \<in> set branch_counters"
      and r: "mem' = JObj (AList.update c (JInt (counter m c + 1)) (recorded m p))"
      by blast
    have "\<forall>k. k \<notin> {''turns_played'', ''positions_visited''} \<union> set [c] \<longrightarrow>
        map_of (AList.update c (JInt (counter m c + 1)) (recorded m p)) k = map_of m k"
      by (simp add: recorded_lookup update_conv')
    with m r c show ?thesis
      by (intro exI[of _ m] exI[of _ "AList.update c (JInt (counter m c + 1)) (recorded m p)"]
                exI[of _ "[c]"]) simp
  qed
qed

text \<open>An instance: a memory with a key of its own, which the call leaves as it is.\<close>

theorem memory_frame_witness:
  "choose_action (world (JInt 0) 1 []) (JObj [(''note'', JStr ''x''), (''peaceful_rests'', JInt 2)]) =
     Some (Rest, JObj [(''note'', JStr ''x''), (''peaceful_rests'', JInt 3),
                      (''turns_played'', JInt 1), (''positions_visited'', JList [JInt 0])])"
proof -
  have run: "choose_action (world (JInt 0) 1 [])
       (JObj [(''note'', JStr ''x''), (''peaceful_rests'', JInt 2)]) =
     Some (Rest, JObj [(''note'', JStr ''x''), (''peaceful_rests'', JInt 3),
                      (''turns_played'', JInt 1), (''positions_visited'', JList [JInt 0])])"
    by (simp add: world_def choose_action_def update_memory_def strategy_def increment_def
          py_add_def py_ge_def py_le_def last20_def)
  from memory_frame[OF run] run show ?thesis by simp
qed

lemma threat_is_threatening:
  assumes "0 < threat_count e ns" and "0 < e"
  shows "threatening_neighbors e ns \<noteq> []"
proof -
  from assms(1) have "filter (\<lambda>(d, x). e \<le> x) ns \<noteq> []"
    by (simp add: threat_count_def)
  then obtain d x where dx: "(d, x) \<in> set ns" "e \<le> x"
    by (auto simp: filter_empty_conv)
  with assms(2) have "(d, x) \<in> set (threatening_neighbors e ns)"
    by (simp add: threatening_neighbors_def)
  then show ?thesis by auto
qed

subsection \<open>The fallback of the defensive attack\<close>

text \<open>
  Claim C2, as stated: whenever the defensive-attack branch is reached, the
  threatening-neighbour subset is non-empty, so that the fallback to rest in that branch is
  unreachable. It fails for an agent of energy 0 beside a single neighbour of energy 0: the
  neighbour is a threat (\<open>0 \<ge> 0\<close>), one threat does not make an emergency, and the
  neighbour is not threatening (\<open>0 > 0\<close> is false), so the agent rests through the
  fallback, without counting a peaceful rest.
\<close>

theorem fallback_rest_counterexample:
  "observation (world (JInt 0) 0 [(''N'', 0)]) = Some ([(''N'', 0)], 0, JInt 0) \<and>
   defensive_branch (threat_count 0 [(''N'', 0)]) 0 \<and>
   threatening_neighbors 0 [(''N'', 0)] = [] \<and>
   count_threats [JObj [(''energy'', JInt 0)]] (JInt 0) = Some 1 \<and>
   threatening [(''N'', JObj [(''energy'', JInt 0)])] (JInt 0) = Some [] \<and>
   choose_action (world (JInt 0) 0 [(''N'', 0)]) (JObj []) =
     Some (Rest, JObj [(''turns_played'', JInt 1), (''positions_visited'', JList [JInt 0])])"
  by (simp add: observation_def world_def defensive_branch_def threat_count_def
        threatening_neighbors_def choose_action_def update_memory_def strategy_def
        py_add_def py_ge_def py_le_def py_gt_def py_sub_def last20_def)

text \<open>
  Claim C2, amended: whenever the defensive-attack branch is reached and the agent's energy
  is positive, the threatening-neighbour subset is non-empty and the action is an attack;
  the fallback to rest in that branch is reached only with energy 0 or less.
\<close>

theorem threatening_nonempty:
  assumes "observation world_state = Some (ns, e, p)" and "wf_memory m"
    and "defensive_branch (threat_count e ns) e" and "0 < e"
  shows "threatening_neighbors e ns \<noteq> [] \<and>
         (\<exists>target m'. choose_action world_state (JObj m) = Some (Attack target, JObj m'))"
proof -
  from assms(3) have "0 < threat_count e ns" by (simp add: defensive_branch_def)
  from threat_is_threatening[OF this assms(4)] have ne: "threatening_neighbors e ns \<noteq> []" .
  from choose_action_attack[OF assms(1,2,3) ne] obtain target m' where
    "choose_action world_state (JObj m) = Some (Attack target, JObj m')"
    by (elim exE conjE) (rule that)
  with ne show ?thesis by blast
qed

text \<open>An instance: energy 1 beside a single neighbour of energy 1.\<close>

theorem threatening_nonempty_witness:
  "observation (world (JInt 0) 1 [(''N'', 1)]) = Some ([(''N'', 1)], 1, JInt 0) \<and> wf_memory [] \<and>
   defensive_branch (threat_count 1 [(''N'', 1)]) 1 \<and> (0::int) < 1 \<and>
   threatening_neighbors 1 [(''N'', 1)] \<noteq> [] \<and>
   (\<exists>target m'. choose_action (world (JInt 0) 1 [(''N'', 1)]) (JObj []) = Some (Attack target, JObj m'))"
proof -
  have obs: "observation (world (JInt 0) 1 [(''N'', 1)]) = Some ([(''N'', 1)], 1, JInt 0)"
    by (simp add: observation_def world_def)
  have wf: "wf_memory []"
    by (simp add: wf_memory_def counter_ok_def positions_ok_def)
  have br: "defensive_branch (threat_count 1 [(''N'', 1)]) 1"
    by (simp add: defensive_branch_def threat_count_def)
  have pos: "(0::int) < 1" by simp
  from threatening_nonempty[OF obs wf br pos] obs wf br show ?thesis by simp
qed

subsection \<open>Saving and loading the memory\<close>




subsection \<open>The positions remembered\<close>

lemma last20_length: "length (last20 xs) \<le> 20"
  by (simp add: last20_def)

lemma last20_short: "length xs \<le> 20 \<Longrightarrow> last20 xs = xs"
  by (simp add: last20_def)

lemma last20_append: "last20 (last20 xs @ ys) = last20 (xs @ ys)"
proof (cases "length xs \<le> 20")
  case True
  then show ?thesis by (simp add: last20_short)
next
  case False
  then have "length xs + length ys - (length xs - 20 + 20) + (length xs - 20) =
      length xs + length ys - 20" by arith
  with False show ?thesis by (simp add: last20_def)
qed

lemma positions_recorded: "positions (recorded m p) = last20 (positions m @ [p])"
  by (simp add: positions_def recorded_lookup)

lemma wf_memory_recorded: "wf_memory m \<Longrightarrow> wf_memory (recorded m p)"
  by (simp add: wf_memory_def counter_ok_def positions_ok_def recorded_lookup)

lemma wf_memory_increment:
  "wf_memory m \<Longrightarrow> c \<in> set branch_counters \<Longrightarrow> wf_memory (AList.update c (JInt n) m)"
  by (auto simp: wf_memory_def counter_ok_def positions_ok_def update_conv' branch_counters_def)

lemma positions_increment:
  "c \<in> set branch_counters \<Longrightarrow> positions (AList.update c v m) = positions m"
  by (auto simp: positions_def update_conv' branch_counters_def)

lemma stored_increment:
  "c \<in> set branch_counters \<Longrightarrow>
   map_of (AList.update c v m) ''positions_visited'' = map_of m ''positions_visited''"
  by (auto simp: update_conv' branch_counters_def)

text \<open>One turn on well-formed inputs keeps the memory well-formed and records the position.\<close>

lemma choose_action_positions:
  assumes "observation world_state \<noteq> None" and "wf_memory m"
  shows "\<exists>a m'. choose_action world_state (JObj m) = Some (a, JObj m') \<and> wf_memory m' \<and>
           positions m' = last20 (positions m @ [position_of world_state]) \<and>
           map_of m' ''positions_visited'' = Some (JList (positions m'))"
proof -
  from assms(1) obtain ns e p where obs: "observation world_state = Some (ns, e, p)"
    by (cases "observation world_state") auto
  from observation_position[OF obs] have p: "position_of world_state = p"
    by (simp add: position_of_def)
  from choose_action_wf[OF obs assms(2)] obtain a m' where
    ch: "choose_action world_state (JObj m) = Some (a, JObj m')"
    and m': "m' = recorded m p \<or>
       (\<exists>c \<in> set branch_counters. m' = AList.update c (JInt (counter m c + 1)) (recorded m p))"
    by blast
  from m' assms(2) have 1: "wf_memory m'"
    by (auto simp: wf_memory_recorded wf_memory_increment)
  from m' have 2: "positions m' = last20 (positions m @ [p])"
    by (auto simp: positions_recorded positions_increment)
  from m' have "map_of m' ''positions_visited'' = Some (JList (last20 (positions m @ [p])))"
    by (auto simp: stored_increment recorded_lookup)
  with 2 have 3: "map_of m' ''positions_visited'' = Some (JList (positions m'))" by simp
  show ?thesis
    using ch 1 2 3 p by auto
qed

lemma decide_all_positions:
  assumes "\<forall>world_state \<in> set wss. observation world_state \<noteq> None" and "wf_memory m"
    and "length (positions m) \<le> 20"
  shows "\<exists>m'. decide_all (JObj m) wss = Some (JObj m') \<and> wf_memory m' \<and>
           positions m' = last20 (positions m @ map position_of wss) \<and>
           (wss \<noteq> [] \<longrightarrow> map_of m' ''positions_visited'' = Some (JList (positions m')))"
  using assms
proof (induction wss arbitrary: m)
  case Nil
  then show ?case by (simp add: last20_short)
next
  case (Cons ws wss)
  from Cons.prems(1) have ws: "observation ws \<noteq> None"
    and rest: "\<forall>world_state \<in> set wss. observation world_state \<noteq> None" by simp_all
  from choose_action_positions[OF ws Cons.prems(2)] obtain a m1 where
    ch: "choose_action ws (JObj m) = Some (a, JObj m1)" and wf1: "wf_memory m1"
    and pos1: "positions m1 = last20 (positions m @ [position_of ws])"
    and st1: "map_of m1 ''positions_visited'' = Some (JList (positions m1))"
    by blast
  from pos1 have len1: "length (positions m1) \<le> 20" by (simp add: last20_length)
  from Cons.IH[OF rest wf1 len1] obtain m' where
    run: "decide_all (JObj m1) wss = Some (JObj m')" and wf': "wf_memory m'"
    and pos': "positions m' = last20 (positions m1 @ map position_of wss)"
    and st': "wss \<noteq> [] \<longrightarrow> map_of m' ''positions_visited'' = Some (JList (positions m'))"
    by blast
  have 1: "decide_all (JObj m) (ws # wss) = Some (JObj m')"
    using ch run by simp
  have 2: "positions m' = last20 (positions m @ map position_of (ws # wss))"
    using pos' pos1 by (simp add: last20_append)
  have 3: "map_of m' ''positions_visited'' = Some (JList (positions m'))"
  proof (cases "wss = []")
    case True
    with run have "m' = m1" by simp
    with st1 show ?thesis by simp
  next
    case False
    with st' show ?thesis by simp
  qed
  from 1 wf' 2 3 show ?case by blast
qed

text \<open>
  Claim C4. Starting from the empty memory, after any sequence of calls of \<open>choose_action\<close>
  (on well-formed observations) the list \<^verbatim>\<open>positions_visited\<close> has length at most 20,
  and it holds the positions observed, oldest first, without the first \<open>n - 20\<close> of them
  when there were \<open>n > 20\<close> turns: exactly the 20 most recent ones.
\<close>

theorem positions_visited_bounded:
  assumes "\<forall>world_state \<in> set wss. observation world_state \<noteq> None"
  shows "\<exists>m. decide_all (JObj []) wss = Some (JObj m) \<and>
           length (positions m) \<le> 20 \<and>
           positions m = drop (length wss - 20) (map position_of wss) \<and>
           (20 < length wss \<longrightarrow> length (positions m) = 20) \<and>
           (wss \<noteq> [] \<longrightarrow> map_of m ''positions_visited'' = Some (JList (positions m)))"
proof -
  have wf: "wf_memory []"
    by (simp add: wf_memory_def counter_ok_def positions_ok_def)
  have len: "length (positions []) \<le> 20" by (simp add: positions_def)
  from decide_all_positions[OF assms wf len] obtain m where
    run: "decide_all (JObj []) wss = Some (JObj m)"
    and pos: "positions m = last20 (positions [] @ map position_of wss)"
    and st: "wss \<noteq> [] \<longrightarrow> map_of m ''positions_visited'' = Some (JList (positions m))"
    by blast
  from pos have 1: "positions m = drop (length wss - 20) (map position_of wss)"
    by (simp add: positions_def last20_def)
  from 1 have 2: "length (positions m) \<le> 20" by simp
  from 1 have 3: "20 < length wss \<longrightarrow> length (positions m) = 20" by simp
  show ?thesis
    by (rule exI[of _ m]) (intro conjI run 2 1 3 st)
qed

lemma observation_world_alone: "observation (world p e []) = Some ([], e, p)"
  by (simp add: observation_def world_def)

lemma position_of_world: "position_of (world p e ns) = p"
  by (simp add: position_of_def world_def)

text \<open>An instance: after 21 turns at the positions 0 to 20, position 0 is forgotten.\<close>

theorem positions_visited_bounded_witness:
  "\<exists>m. decide_all (JObj []) (walk [0, 1, 2, 3, 4, 5, 6, 7, 8, 9, 10, 11, 12, 13, 14, 15, 16, 17, 18, 19, 20])
          = Some (JObj m) \<and>
        positions m = map JInt [1, 2, 3, 4, 5, 6, 7, 8, 9, 10, 11, 12, 13, 14, 15, 16, 17, 18, 19, 20] \<and>
        length (positions m) = 20"
proof -
  let ?W = "walk [0, 1, 2, 3, 4, 5, 6, 7, 8, 9, 10, 11, 12, 13, 14, 15, 16, 17, 18, 19, 20]"
  have wf: "\<forall>world_state \<in> set ?W. observation world_state \<noteq> None"
    by (simp add: walk_def observation_world_alone)
  have drop: "drop (length ?W - 20) (map position_of ?W) =
      map JInt [1, 2, 3, 4, 5, 6, 7, 8, 9, 10, 11, 12, 13, 14, 15, 16, 17, 18, 19, 20]"
    by (simp add: walk_def position_of_world)
  from positions_visited_bounded[OF wf] obtain m where
    run: "decide_all (JObj []) ?W = Some (JObj m)"
    and pos: "positions m = drop (length ?W - 20) (map position_of ?W)"
    by (elim exE conjE) (rule that)
  from pos drop have now: "positions m =
      map JInt [1, 2, 3, 4, 5, 6, 7, 8, 9, 10, 11, 12, 13, 14, 15, 16, 17, 18, 19, 20]"
    by (rule trans)
  have len: "length (positions m) = 20"
    unfolding now by simp
  from run now len show ?thesis
    by (intro exI[of _ m] conjI)
qed

subsection \<open>A failing line\<close>

lemma main_loop_prefix:
  assumes "decide_all memory wss = Some memory_k"
  shows "fst (main_loop ident (map Some wss @ lines) memory fs) =
           fst (main_loop ident (map Some wss) memory fs) @
           fst (main_loop ident lines memory_k (snd (main_loop ident (map Some wss) memory fs))) \<and>
         snd (main_loop ident (map Some wss @ lines) memory fs) =
           snd (main_loop ident lines memory_k (snd (main_loop ident (map Some wss) memory fs))) \<and>
         length (fst (main_loop ident (map Some wss) memory fs)) = length wss"
  using assms
proof (induction wss arbitrary: memory fs)
  case Nil
  then show ?case by simp
next
  case (Cons ws wss)
  from Cons.prems obtain a m1 where
    ch: "choose_action ws memory = Some (a, m1)" and rest: "decide_all m1 wss = Some memory_k"
    by (auto simp: bind_eq_Some_conv)
  from Cons.IH[OF rest, of "save_memory ident m1 fs"] ch show ?case
    by (simp add: split_beta Let_def)
qed

text \<open>
  Claim C1, as stated: if processing an input line fails, the agent emits the fallback
  action and then continues with the subsequent input lines. It fails on two lines of which
  the first is \<^verbatim>\<open>{}\<close>, an object without the key \<^verbatim>\<open>neighbors\<close>, and the second a
  well-formed observation on which \<open>choose_action\<close> succeeds from the empty memory: the
  handler encloses the loop, so the agent prints the fallback and returns, with one action
  printed for two lines.
\<close>

theorem main_continues_counterexample:
  "choose_action (JObj []) (JObj []) = None \<and>
   choose_action (world (JInt 0) 1 []) (JObj []) =
     Some (Rest, JObj [(''turns_played'', JInt 1), (''positions_visited'', JList [JInt 0]),
                      (''peaceful_rests'', JInt 1)]) \<and>
   fst (main None [Some (JObj []), Some (world (JInt 0) 1 [])] no_agents_dir) = [RestMessage]"
  by (simp add: main_def agent_id_def load_memory_def no_agents_dir_def world_def
        choose_action_def update_memory_def strategy_def increment_def
        py_add_def py_ge_def py_le_def last20_def)

text \<open>
  Claim C1, amended: if processing an input line fails (the line is not JSON, or
  \<open>choose_action\<close> raises on it), the agent emits the fallback action
  \<^verbatim>\<open>{action: rest, message: "Error: <description>"}\<close> after the actions of the lines
  before it, and then stops: whatever lines follow, nothing more is printed and nothing more
  is saved.
\<close>

theorem main_stops_at_failure:
  assumes "decide_all memory wss = Some memory_k"
    and "Option.bind line (\<lambda>world_state. choose_action world_state memory_k) = None"
  shows "fst (main_loop ident (map Some wss @ line # lines) memory fs) =
           fst (main_loop ident (map Some wss) memory fs) @ [RestMessage] \<and>
         length (fst (main_loop ident (map Some wss @ line # lines) memory fs)) = length wss + 1 \<and>
         snd (main_loop ident (map Some wss @ line # lines) memory fs) =
           snd (main_loop ident (map Some wss) memory fs)"
  using main_loop_prefix[OF assms(1), of ident "line # lines" fs] assms(2)
  by simp

text \<open>An instance: a well-formed line, then a line that is not JSON, then a well-formed
  line that is never read.\<close>

theorem main_stops_at_failure_witness:
  "decide_all (JObj []) [world (JInt 0) 1 []] =
     Some (JObj [(''turns_played'', JInt 1), (''positions_visited'', JList [JInt 0]),
                 (''peaceful_rests'', JInt 1)]) \<and>
   fst (main_loop ''a1'' [Some (world (JInt 0) 1 []), None, Some (world (JInt 0) 1 [])]
          (JObj []) no_agents_dir) = [Rest, RestMessage]"
proof -
  have run: "decide_all (JObj []) [world (JInt 0) 1 []] =
     Some (JObj [(''turns_played'', JInt 1), (''positions_visited'', JList [JInt 0]),
                 (''peaceful_rests'', JInt 1)])"
    by (simp add: world_def choose_action_def update_memory_def strategy_def increment_def
          py_add_def py_ge_def py_le_def last20_def)
  have fails: "Option.bind None (\<lambda>world_state. choose_action world_state
      (JObj [(''turns_played'', JInt 1), (''positions_visited'', JList [JInt 0]),
             (''peaceful_rests'', JInt 1)])) = None"
    by simp
  have before: "fst (main_loop ''a1'' (map Some [world (JInt 0) 1 []]) (JObj []) no_agents_dir) = [Rest]"
    by (simp add: world_def choose_action_def update_memory_def strategy_def increment_def
          py_add_def py_ge_def py_le_def last20_def split_beta Let_def)
  from main_stops_at_failure[OF run fails, of "''a1''" "[Some (world (JInt 0) 1 [])]" no_agents_dir]
    before run
  show ?thesis by simp
qed

end
